theory Spec2Isabelle
  imports Complex_Main "HOL-Library.AList"
begin

section \<open>Numbers and errors\<close>

text \<open>
  The analytics of \<^verbatim>\<open>backend/services/analyzer.py\<close> work on Python floats. A finite
  float is modelled as a \<^typ>\<open>real\<close>. Where only the value of a formula is at stake the
  arithmetic on finite floats is exact and the rounding of binary64 is left out. Where
  the rounding decides which branch is taken (the zero test of \<open>calculate_beta\<close>, the
  tail of \<open>calculate_cvar\<close>) it is a parameter \<open>rnd\<close> of the model: the identity for
  exact arithmetic, \<open>binary64\<close> for Python's floats. What Python does beyond arithmetic
  is kept: a float division by zero raises \<^verbatim>\<open>ZeroDivisionError\<close>, so every unguarded
  division of the source is a branch of the model.
\<close>

datatype py_error = ZeroDivisionError | ValueError

text \<open>
  \<open>binary64\<close> rounds a real to the nearest number with a significand of 53 bits, ties
  to the even significand (overflow and subnormal numbers are not modelled; the values it
  is applied to below are far from both).
\<close>

definition round_half_even :: "real \<Rightarrow> int" where
  "round_half_even x =
     (let f = \<lfloor>x\<rfloor>; d = x - of_int f
      in if d < 1 / 2 then f else if d > 1 / 2 then f + 1 else if even f then f else f + 1)"

definition binary64 :: "real \<Rightarrow> real" where
  "binary64 x =
     (if x = 0 then 0
      else let e = \<lfloor>log 2 \<bar>x\<bar>\<rfloor> - 52
           in of_int (round_half_even (x / 2 powr of_int e)) * 2 powr of_int e)"

lemma binary64_binade:
  assumes "2 powr of_int k \<le> \<bar>x\<bar>" and "\<bar>x\<bar> < 2 powr of_int (k + 1)"
  shows "binary64 x = of_int (round_half_even (x / 2 powr of_int (k - 52))) * 2 powr of_int (k - 52)"
proof -
  have pos: "0 < \<bar>x\<bar>"
    using assms(1) by (smt (verit) powr_gt_zero)
  then have "x \<noteq> 0" by auto
  moreover have "\<lfloor>log 2 \<bar>x\<bar>\<rfloor> = k"
    using assms pos by (simp add: floor_log_eq_powr_iff)
  ultimately show ?thesis by (simp add: binary64_def Let_def)
qed

lemma binary64_zero: "binary64 0 = 0"
  by (simp add: binary64_def)

text \<open>A number with a significand of 53 bits is left as it is.\<close>

lemma round_half_even_int: "round_half_even (of_int m) = m"
  by (simp add: round_half_even_def)

lemma binary64_representable:
  assumes "2 ^ 52 \<le> \<bar>m\<bar>" and "\<bar>m\<bar> < 2 ^ 53"
  shows "binary64 (of_int m * 2 powr of_int e) = of_int m * 2 powr of_int e"
proof -
  let ?x = "of_int m * 2 powr of_int e :: real"
  have abs: "\<bar>?x\<bar> = of_int \<bar>m\<bar> * 2 powr of_int e"
    by (simp add: abs_mult)
  have lo: "(2 :: real) ^ 52 \<le> of_int \<bar>m\<bar>"
    using assms(1) by (metis of_int_le_iff of_int_numeral of_int_power)
  have hi: "of_int \<bar>m\<bar> < (2 :: real) ^ 53"
    using assms(2) by (metis of_int_less_iff of_int_numeral of_int_power)
  have p52: "2 powr of_int (e + 52) = (2 :: real) ^ 52 * 2 powr of_int e"
    by (simp add: powr_add powr_numeral mult.commute)
  have p53: "2 powr of_int (e + 52 + 1) = (2 :: real) ^ 53 * 2 powr of_int e"
    by (simp add: powr_add powr_numeral mult.commute)
  have "2 powr of_int (e + 52) \<le> \<bar>?x\<bar>"
    unfolding abs p52 using lo by (intro mult_right_mono) simp_all
  moreover have "\<bar>?x\<bar> < 2 powr of_int (e + 52 + 1)"
    unfolding abs p53 using hi by (intro mult_strict_right_mono) simp_all
  ultimately have "binary64 ?x =
      of_int (round_half_even (?x / 2 powr of_int (e + 52 - 52))) * 2 powr of_int (e + 52 - 52)"
    by (rule binary64_binade)
  then show ?thesis by (simp add: round_half_even_int)
qed


section \<open>PerformanceAnalyzer\<close>

subsection \<open>calculate_returns\<close>

text \<open>
  \<^verbatim>\<open>
  def calculate_returns(self, prices):
      if len(prices) < 2:
          return []
      returns = []
      for i in range(1, len(prices)):
          if prices[i-1] != 0:
              ret = (prices[i] - prices[i-1]) / prices[i-1]
              returns.append(ret)
          else:
              returns.append(0)
      return returns
  \<close>
  The loop is a fold over \<open>range(1, len(prices))\<close>; each round appends one entry. Both
  indices are in range inside the loop, and the division is guarded.
\<close>

definition returns_step :: "real list \<Rightarrow> nat \<Rightarrow> real list \<Rightarrow> real list" where
  "returns_step prices i returns =
     (if prices ! (i - 1) \<noteq> 0
      then returns @ [(prices ! i - prices ! (i - 1)) / prices ! (i - 1)]
      else returns @ [0])"

definition calculate_returns :: "real list \<Rightarrow> real list" where
  "calculate_returns prices =
     (if length prices < 2 then []
      else fold (returns_step prices) [1 ..< length prices] [])"

text \<open>The entry the loop appends in round \<open>i\<close>.\<close>

definition simple_return :: "real \<Rightarrow> real \<Rightarrow> real" where
  "simple_return prev cur = (if prev \<noteq> 0 then (cur - prev) / prev else 0)"

lemma fold_returns_step:
  "fold (returns_step prices) is acc =
     acc @ map (\<lambda>i. simple_return (prices ! (i - 1)) (prices ! i)) is"
  by (induction "is" arbitrary: acc) (simp_all add: returns_step_def simple_return_def)

lemma calculate_returns_map:
  "calculate_returns prices =
     map (\<lambda>i. simple_return (prices ! (i - 1)) (prices ! i)) [1 ..< length prices]"
  by (simp add: calculate_returns_def fold_returns_step)

lemma calculate_returns_length: "length (calculate_returns prices) = length prices - 1"
  by (simp add: calculate_returns_map)

lemma calculate_returns_nth:
  assumes "1 \<le> i" and "i < length prices"
  shows "calculate_returns prices ! (i - 1) = simple_return (prices ! (i - 1)) (prices ! i)"
proof -
  from assms have "i - 1 < length [1 ..< length prices]" by simp
  moreover from assms have "[1 ..< length prices] ! (i - 1) = i" by simp
  ultimately show ?thesis by (simp add: calculate_returns_map del: length_upt)
qed

text \<open>
  C1. For a price list with at least two entries, \<open>calculate_returns\<close> gives a list one
  shorter than the prices; its entry for position \<open>i\<close> (\<open>1 \<le> i < len(prices)\<close>, stored at
  index \<open>i - 1\<close>) is \<open>(P\<^sub>i - P\<^sub>i\<^sub>-\<^sub>1) / P\<^sub>i\<^sub>-\<^sub>1\<close> when the prior price is not zero and \<open>0\<close>
  when it is. For a list with fewer than two entries the result is empty.
\<close>

theorem calculate_returns_spec:
  "(2 \<le> length P \<longrightarrow>
      length (calculate_returns P) = length P - 1 \<and>
      (\<forall>i. 1 \<le> i \<and> i < length P \<longrightarrow>
         calculate_returns P ! (i - 1) =
           (if P ! (i - 1) \<noteq> 0 then (P ! i - P ! (i - 1)) / P ! (i - 1) else 0))) \<and>
   (length P < 2 \<longrightarrow> calculate_returns P = [])"
proof (intro conjI impI allI)
  show "length (calculate_returns P) = length P - 1"
    by (rule calculate_returns_length)
next
  fix i assume "1 \<le> i \<and> i < length P"
  then show "calculate_returns P ! (i - 1) =
      (if P ! (i - 1) \<noteq> 0 then (P ! i - P ! (i - 1)) / P ! (i - 1) else 0)"
    using calculate_returns_nth [of i P] by (simp add: simple_return_def)
next
  assume "length P < 2"
  then show "calculate_returns P = []" by (simp add: calculate_returns_def)
qed

theorem calculate_returns_spec_witness:
  "2 \<le> length [100, 110, 0, 5 :: real] \<and>
   calculate_returns [100, 110, 0, 5] = [1 / 10, - 1, 0] \<and>
   length [7 :: real] < 2 \<and> calculate_returns [7] = []"
proof -
  have "calculate_returns [100, 110, 0, 5] = [1 / 10, - 1, 0]"
  proof (rule nth_equalityI)
    show "length (calculate_returns [100, 110, 0, 5]) = length [1 / 10, - 1, 0 :: real]"
      using calculate_returns_spec [of "[100, 110, 0, 5]"] by simp
  next
    fix i assume "i < length (calculate_returns [100, 110, 0, 5])"
    then have "i < 3" by (simp add: calculate_returns_length)
    then consider "i = 0" | "i = 1" | "i = 2" by linarith
    then show "calculate_returns [100, 110, 0, 5] ! i = [1 / 10, - 1, 0] ! i"
    proof cases
      case 1
      then show ?thesis
        using calculate_returns_spec [of "[100, 110, 0, 5]", THEN conjunct1, rule_format,
            THEN conjunct2, rule_format, of 1] by simp
    next
      case 2
      then show ?thesis
        using calculate_returns_spec [of "[100, 110, 0, 5]", THEN conjunct1, rule_format,
            THEN conjunct2, rule_format, of 2] by simp
    next
      case 3
      then show ?thesis
        using calculate_returns_spec [of "[100, 110, 0, 5]", THEN conjunct1, rule_format,
            THEN conjunct2, rule_format, of 3] by simp
    qed
  qed
  moreover have "calculate_returns [7] = []"
    using calculate_returns_spec [of "[7]"] by simp
  ultimately show ?thesis by simp
qed

subsection \<open>calculate_total_return\<close>

text \<open>
  \<^verbatim>\<open>
  def calculate_total_return(self, prices):
      if len(prices) < 2 or prices[0] == 0:
          return 0.0
      return (prices[-1] - prices[0]) / prices[0] * 100
  \<close>
  \<open>or\<close> short-circuits, so \<open>prices[0]\<close> and \<open>prices[-1]\<close> are read on a list of at
  least two entries only.
\<close>

definition calculate_total_return :: "real list \<Rightarrow> real" where
  "calculate_total_return prices =
     (if length prices < 2 \<or> prices ! 0 = 0 then 0
      else (last prices - prices ! 0) / prices ! 0 * 100)"

lemma upt_1_Suc_Suc: "[1 ..< Suc (Suc n)] = 1 # map Suc [1 ..< Suc n]"
proof -
  have "[1 ..< Suc (Suc n)] = 1 # [Suc 1 ..< Suc (Suc n)]"
    by (rule upt_conv_Cons) simp
  also have "[Suc 1 ..< Suc (Suc n)] = map Suc [1 ..< Suc n]"
    by (rule map_Suc_upt [symmetric])
  finally show ?thesis .
qed

lemma calculate_returns_Cons:
  "calculate_returns (a # b # xs) = simple_return a b # calculate_returns (b # xs)"
proof -
  have "[1 ..< length (a # b # xs)] = 1 # map Suc [1 ..< length (b # xs)]"
    using upt_1_Suc_Suc [of "length xs"] by simp
  then show ?thesis
    by (simp add: calculate_returns_map comp_def del: upt_Suc)
qed

lemma calculate_returns_single: "calculate_returns [a] = []"
  by (simp add: calculate_returns_def)

lemma compound_returns:
  "0 \<notin> set (a # xs) \<Longrightarrow>
     prod_list (map (\<lambda>r. 1 + r) (calculate_returns (a # xs))) = last (a # xs) / a"
proof (induction xs arbitrary: a)
  case Nil
  then show ?case by (simp add: calculate_returns_single)
next
  case (Cons b xs)
  from Cons.prems have a: "a \<noteq> 0" and b: "b \<noteq> 0" and rest: "0 \<notin> set (b # xs)"
    by auto
  have step: "1 + simple_return a b = b / a"
    using a by (simp add: simple_return_def field_simps)
  have "prod_list (map (\<lambda>r. 1 + r) (calculate_returns (a # b # xs))) =
      (b / a) * (last (b # xs) / b)"
    using Cons.IH [OF rest] step by (simp add: calculate_returns_Cons)
  also have "\<dots> = last (b # xs) / a"
    using b by simp
  finally show ?case by simp
qed

subsection \<open>calculate_log_returns\<close>

text \<open>
  numpy works in IEEE arithmetic, where an operation that has no finite result gives an
  infinity or NaN instead of raising. Such a value is an \<open>fl\<close>: a finite number (a real,
  as above), one of the two infinities, or NaN.
\<close>

datatype fl = Fin real | PInf | NInf | NaN

text \<open>\<open>np.log\<close>: the logarithm of a positive number, \<open>-inf\<close> at zero, NaN below.\<close>

definition np_log :: "real \<Rightarrow> fl" where
  "np_log x = (if 0 < x then Fin (ln x) else if x = 0 then NInf else NaN)"

text \<open>
  \<^verbatim>\<open>
  def calculate_log_returns(self, prices):
      if len(prices) < 2:
          return []
      return [np.log(prices[i] / prices[i-1])
              for i in range(1, len(prices)) if prices[i-1] > 0]
  \<close>
  The division happens behind the filter \<open>prices[i-1] > 0\<close>, so it never raises.
\<close>

definition calculate_log_returns :: "real list \<Rightarrow> fl list" where
  "calculate_log_returns prices =
     (if length prices < 2 then []
      else [np_log (prices ! i / prices ! (i - 1)).
              i \<leftarrow> [1 ..< length prices], prices ! (i - 1) > 0])"

lemma comprehension_map_filter:
  "[f i. i \<leftarrow> is, p i] = map f (filter p is)"
  by (induction "is") simp_all

lemma calculate_log_returns_map:
  "calculate_log_returns prices =
     map (\<lambda>i. np_log (prices ! i / prices ! (i - 1)))
       (filter (\<lambda>i. 0 < prices ! (i - 1)) [1 ..< length prices])"
  by (simp add: calculate_log_returns_def comprehension_map_filter)

subsection \<open>calculate_max_drawdown\<close>

text \<open>
  \<^verbatim>\<open>
  def calculate_max_drawdown(self, prices):
      if len(prices) < 2:
          return 0.0
      peak = prices[0]
      max_dd = 0.0
      for price in prices[1:]:
          if price > peak:
              peak = price
          drawdown = (peak - price) / peak
          if drawdown > max_dd:
              max_dd = drawdown
      return max_dd * 100
  \<close>
  The loop carries \<open>peak\<close> and \<open>max_dd\<close>. The division by \<open>peak\<close> has no guard: on
  Python floats it raises when the running peak is zero.
\<close>

fun drawdown_loop :: "real list \<Rightarrow> real \<Rightarrow> real \<Rightarrow> py_error + real" where
  "drawdown_loop [] peak max_dd = Inr max_dd"
| "drawdown_loop (price # rest) peak max_dd =
     (let peak' = (if price > peak then price else peak)
      in if peak' = 0 then Inl ZeroDivisionError
         else let drawdown = (peak' - price) / peak'
              in drawdown_loop rest peak' (if drawdown > max_dd then drawdown else max_dd))"

definition calculate_max_drawdown :: "real list \<Rightarrow> py_error + real" where
  "calculate_max_drawdown prices =
     (if length prices < 2 then Inr 0
      else case drawdown_loop (tl prices) (prices ! 0) 0 of
             Inl e \<Rightarrow> Inl e
           | Inr max_dd \<Rightarrow> Inr (max_dd * 100))"

lemma drawdown_loop_lower:
  "drawdown_loop ps peak m = Inr d \<Longrightarrow> m \<le> d"
proof (induction ps arbitrary: peak m)
  case Nil
  then show ?case by simp
next
  case (Cons p ps)
  let ?peak = "if p > peak then p else peak"
  let ?dd = "(?peak - p) / ?peak"
  from Cons.prems have nz: "?peak \<noteq> 0"
    by (auto simp: Let_def split: if_splits)
  with Cons.prems have "drawdown_loop ps ?peak (if ?dd > m then ?dd else m) = Inr d"
    by (simp add: Let_def)
  from Cons.IH [OF this] show ?case
    by (simp split: if_splits)
qed

lemma drawdown_loop_upper:
  "0 < peak \<Longrightarrow> \<forall>p \<in> set ps. 0 \<le> p \<Longrightarrow> m \<le> 1 \<Longrightarrow>
     \<exists>d. drawdown_loop ps peak m = Inr d \<and> d \<le> 1"
proof (induction ps arbitrary: peak m)
  case Nil
  then show ?case by simp
next
  case (Cons p ps)
  let ?peak = "if p > peak then p else peak"
  let ?dd = "(?peak - p) / ?peak"
  from Cons.prems have pos: "0 < ?peak" and p: "0 \<le> p" by auto
  have "?dd \<le> 1" using pos p by (simp add: field_simps)
  with Cons.prems have m': "(if ?dd > m then ?dd else m) \<le> 1" by simp
  from Cons.prems have rest: "\<forall>q \<in> set ps. 0 \<le> q" by simp
  from Cons.IH [OF pos rest m'] pos show ?case
    by (simp add: Let_def)
qed

lemma calculate_max_drawdown_raises:
  "calculate_max_drawdown [0, 0] = Inl ZeroDivisionError"
  by (simp add: calculate_max_drawdown_def)

text \<open>
  C2. For a price list with at least two entries and no zero price, the total return is
  the compounded simple returns: the product of \<open>1 + r\<close> over the entries \<open>r\<close> of
  \<open>calculate_returns\<close>, minus one, times 100. In exact arithmetic the two are equal.
\<close>

theorem total_return_compounds:
  assumes "2 \<le> length P" and "0 \<notin> set P"
  shows "calculate_total_return P =
           (prod_list (map (\<lambda>r. 1 + r) (calculate_returns P)) - 1) * 100"
proof -
  from assms(1) obtain a xs where P: "P = a # xs"
    by (cases P) auto
  from assms(2) P have a: "a \<noteq> 0" by auto
  have "prod_list (map (\<lambda>r. 1 + r) (calculate_returns P)) = last P / a"
    using compound_returns [of a xs] assms(2) P by simp
  moreover have "calculate_total_return P = (last P - a) / a * 100"
    using assms(1) a P by (simp add: calculate_total_return_def)
  moreover have "(last P - a) / a = last P / a - 1"
    using a by (simp add: field_simps)
  ultimately show ?thesis by simp
qed

theorem total_return_compounds_witness:
  "2 \<le> length [100, 110, 121 :: real] \<and> 0 \<notin> set [100, 110, 121 :: real] \<and>
   calculate_total_return [100, 110, 121] = 21 \<and>
   (prod_list (map (\<lambda>r. 1 + r) (calculate_returns [100, 110, 121])) - 1) * 100 = 21"
proof -
  have len: "2 \<le> length [100, 110, 121 :: real]" by simp
  have nz: "0 \<notin> set [100, 110, 121 :: real]" by simp
  have val: "calculate_total_return [100, 110, 121] = 21"
    by (simp add: calculate_total_return_def)
  from total_return_compounds [OF len nz] val len nz show ?thesis by simp
qed

text \<open>
  C6. \<open>calculate_log_returns\<close> gives, in order, \<open>np.log(P\<^sub>i / P\<^sub>i\<^sub>-\<^sub>1)\<close> for exactly the
  positions \<open>1 \<le> i < len(P)\<close> whose prior price is positive. A position whose prior price
  is not positive contributes no entry at all (no zero is put in its place), so the
  length of the result is the number of positions with a positive prior price. When
  every price is positive the entries are the real logarithms, one per position. A list
  with fewer than two entries gives the empty list.
\<close>

theorem calculate_log_returns_spec:
  "calculate_log_returns P =
     map (\<lambda>i. np_log (P ! i / P ! (i - 1))) (filter (\<lambda>i. 0 < P ! (i - 1)) [1 ..< length P]) \<and>
   length (calculate_log_returns P) = card {i. 1 \<le> i \<and> i < length P \<and> 0 < P ! (i - 1)} \<and>
   ((\<forall>p \<in> set P. 0 < p) \<longrightarrow>
      calculate_log_returns P = map (\<lambda>i. Fin (ln (P ! i / P ! (i - 1)))) [1 ..< length P]) \<and>
   (length P < 2 \<longrightarrow> calculate_log_returns P = [])"
proof (intro conjI impI)
  show "calculate_log_returns P =
      map (\<lambda>i. np_log (P ! i / P ! (i - 1))) (filter (\<lambda>i. 0 < P ! (i - 1)) [1 ..< length P])"
    by (rule calculate_log_returns_map)
next
  have "length (calculate_log_returns P) =
      length (filter (\<lambda>i. 0 < P ! (i - 1)) [1 ..< length P])"
    by (simp add: calculate_log_returns_map)
  also have "\<dots> = card ({i. 0 < P ! (i - 1)} \<inter> set [1 ..< length P])"
    by (rule distinct_length_filter) simp
  also have "{i. 0 < P ! (i - 1)} \<inter> set [1 ..< length P] =
      {i. 1 \<le> i \<and> i < length P \<and> 0 < P ! (i - 1)}"
    by auto
  finally show "length (calculate_log_returns P) =
      card {i. 1 \<le> i \<and> i < length P \<and> 0 < P ! (i - 1)}" .
next
  assume pos: "\<forall>p \<in> set P. 0 < p"
  have keep: "filter (\<lambda>i. 0 < P ! (i - 1)) [1 ..< length P] = [1 ..< length P]"
    using pos by (auto simp: filter_id_conv)
  have "map (\<lambda>i. np_log (P ! i / P ! (i - 1))) [1 ..< length P] =
      map (\<lambda>i. Fin (ln (P ! i / P ! (i - 1)))) [1 ..< length P]"
  proof (rule map_cong [OF refl])
    fix i assume "i \<in> set [1 ..< length P]"
    then have "0 < P ! i" and "0 < P ! (i - 1)"
      using pos by auto
    then show "np_log (P ! i / P ! (i - 1)) = Fin (ln (P ! i / P ! (i - 1)))"
      by (simp add: np_log_def)
  qed
  with keep show "calculate_log_returns P =
      map (\<lambda>i. Fin (ln (P ! i / P ! (i - 1)))) [1 ..< length P]"
    by (simp add: calculate_log_returns_map)
next
  assume "length P < 2"
  then show "calculate_log_returns P = []"
    by (simp add: calculate_log_returns_def)
qed

theorem calculate_log_returns_spec_witness:
  "calculate_log_returns [1, 0, 2, 2] = [NInf, Fin 0] \<and>
   (0 :: real) < 3 \<and> calculate_log_returns [3, 3] = [Fin 0] \<and>
   length [4 :: real] < 2 \<and> calculate_log_returns [4] = []"
proof -
  have idx: "[1 ..< 4] = [1, 2, 3 :: nat]" "[1 ..< 2] = [1 :: nat]"
    by (simp_all add: upt_rec)
  have "calculate_log_returns [1, 0, 2, 2] = [NInf, Fin 0]"
    using calculate_log_returns_spec [of "[1, 0, 2, 2]", THEN conjunct1]
    by (simp add: idx np_log_def)
  moreover have "calculate_log_returns [3, 3] = [Fin 0]"
    using calculate_log_returns_spec [of "[3, 3]", THEN conjunct2, THEN conjunct2, THEN conjunct1]
    by (simp add: idx)
  moreover have "calculate_log_returns [4] = []"
    using calculate_log_returns_spec [of "[4]"] by simp
  ultimately show ?thesis by simp
qed

theorem max_drawdown_counterexample:
  "calculate_max_drawdown [100, - 50] = Inr 150 \<and> \<not> (150 \<le> (100 :: real))"
  by (simp add: calculate_max_drawdown_def)

text \<open>
  C7 (amended). A price list with fewer than two entries has drawdown \<open>0\<close>. Whenever
  \<open>calculate_max_drawdown\<close> returns, the result is at least \<open>0\<close>. For a price list that
  starts with a positive price and has no negative price it returns, and the result is
  between \<open>0\<close> and \<open>100\<close>.
\<close>

theorem max_drawdown_bounds:
  "(length P < 2 \<longrightarrow> calculate_max_drawdown P = Inr 0) \<and>
   (\<forall>d. calculate_max_drawdown P = Inr d \<longrightarrow> 0 \<le> d) \<and>
   (P \<noteq> [] \<and> 0 < P ! 0 \<and> (\<forall>p \<in> set P. 0 \<le> p) \<longrightarrow>
      (\<exists>d. calculate_max_drawdown P = Inr d \<and> 0 \<le> d \<and> d \<le> 100))"
proof (intro conjI impI allI)
  assume "length P < 2"
  then show "calculate_max_drawdown P = Inr 0"
    by (simp add: calculate_max_drawdown_def)
next
  fix d assume "calculate_max_drawdown P = Inr d"
  then show "0 \<le> d"
    by (auto simp: calculate_max_drawdown_def split: if_splits sum.splits
        dest!: drawdown_loop_lower)
next
  assume ok: "P \<noteq> [] \<and> 0 < P ! 0 \<and> (\<forall>p \<in> set P. 0 \<le> p)"
  then have rest: "\<forall>p \<in> set (tl P). 0 \<le> p"
    by (cases P) auto
  from ok have "0 < P ! 0" by simp
  from drawdown_loop_upper [OF this rest, of 0]
  obtain m where m: "drawdown_loop (tl P) (P ! 0) 0 = Inr m" "m \<le> 1"
    by auto
  from drawdown_loop_lower [OF m(1)] have "0 \<le> m" .
  with m show "\<exists>d. calculate_max_drawdown P = Inr d \<and> 0 \<le> d \<and> d \<le> 100"
    by (simp add: calculate_max_drawdown_def)
qed

theorem max_drawdown_bounds_witness:
  "length [5 :: real] < 2 \<and> calculate_max_drawdown [5] = Inr 0 \<and>
   [100, 120, 90, 0 :: real] \<noteq> [] \<and> 0 < [100, 120, 90, 0 :: real] ! 0 \<and>
   (0 :: real) \<le> 100 \<and> (0 :: real) \<le> 120 \<and> (0 :: real) \<le> 90 \<and> (0 :: real) \<le> 0 \<and>
   calculate_max_drawdown [100, 120, 90, 0] = Inr 100 \<and> (0 :: real) \<le> 100"
proof -
  have "calculate_max_drawdown [5] = Inr 0"
    using max_drawdown_bounds [of "[5]"] by simp
  moreover have "calculate_max_drawdown [100, 120, 90, 0] = Inr 100"
    using max_drawdown_bounds [of "[100, 120, 90, 0]"]
    by (simp add: calculate_max_drawdown_def)
  ultimately show ?thesis by simp
qed

section \<open>RiskAnalyzer\<close>

subsection \<open>numpy: mean, variance and covariance\<close>

text \<open>
  \<open>np.mean\<close> adds the entries and divides by their number; \<open>np_mean\<close> is that mean in
  exact arithmetic.
\<close>

definition np_mean :: "real list \<Rightarrow> real" where
  "np_mean xs = sum_list xs / real (length xs)"

text \<open>
  In \<open>calculate_beta\<close> the result of \<open>np.var\<close> is tested for zero, so there every float
  operation of numpy rounds its result with \<open>rnd\<close>. \<open>np.add.reduce\<close> adds the entries
  from left to right (numpy does so for fewer than eight entries and adds longer arrays
  in blocks; in exact arithmetic the order does not matter). \<open>np.var(x, ddof=1)\<close> divides
  the sum by \<open>n\<close> for the mean, subtracts the mean from every entry, multiplies each
  deviation by itself, adds up and divides by \<open>n - 1\<close>. \<open>np.cov(x, y)\<close> subtracts from
  each of the two rows its mean, takes the dot products of the rows and scales them by
  \<open>1 / (n - 1)\<close>; entry \<open>[0, 1]\<close> is the dot product of the first row with the second.
  The source calls them on arrays of at least two entries, where none of the divisors is
  zero; the definitions are not meant for shorter arrays, on which numpy gives NaN.
\<close>

definition np_add_reduce :: "(real \<Rightarrow> real) \<Rightarrow> real list \<Rightarrow> real" where
  "np_add_reduce rnd xs = foldl (\<lambda>s v. rnd (s + v)) 0 xs"

definition np_var_ddof1 :: "(real \<Rightarrow> real) \<Rightarrow> real list \<Rightarrow> real" where
  "np_var_ddof1 rnd xs =
     (let arrmean = rnd (np_add_reduce rnd xs / real (length xs));
          x = map (\<lambda>v. rnd (v - arrmean)) xs;
          x = map (\<lambda>v. rnd (v * v)) x;
          ret = np_add_reduce rnd x
      in rnd (ret / real (length xs - 1)))"

definition np_cov_0_1 :: "(real \<Rightarrow> real) \<Rightarrow> real list \<Rightarrow> real list \<Rightarrow> real" where
  "np_cov_0_1 rnd xs ys =
     (let avg0 = rnd (np_add_reduce rnd xs / real (length xs));
          avg1 = rnd (np_add_reduce rnd ys / real (length ys));
          X0 = map (\<lambda>v. rnd (v - avg0)) xs;
          X1 = map (\<lambda>v. rnd (v - avg1)) ys;
          fact = real (length xs - 1);
          dot = np_add_reduce rnd (map2 (\<lambda>a b. rnd (a * b)) X0 X1)
      in rnd (dot * rnd (1 / fact)))"

subsection \<open>calculate_beta\<close>

text \<open>
  \<^verbatim>\<open>
  def calculate_beta(self, asset_returns, market_returns):
      if len(asset_returns) != len(market_returns) or len(asset_returns) < 2:
          return 1.0
      asset_array = np.array(asset_returns)
      market_array = np.array(market_returns)
      covariance = np.cov(asset_array, market_array)[0, 1]
      market_variance = np.var(market_array, ddof=1)
      if market_variance == 0:
          return 1.0
      beta = covariance / market_variance
      return beta
  \<close>
\<close>

definition calculate_beta :: "(real \<Rightarrow> real) \<Rightarrow> real list \<Rightarrow> real list \<Rightarrow> real" where
  "calculate_beta rnd asset_returns market_returns =
     (if length asset_returns \<noteq> length market_returns \<or> length asset_returns < 2 then 1
      else let covariance = np_cov_0_1 rnd asset_returns market_returns;
               market_variance = np_var_ddof1 rnd market_returns
           in if market_variance = 0 then 1
              else rnd (covariance / market_variance))"

text \<open>
  The statistics as the specification names them: the sample covariance of two series of
  the same length \<open>n\<close> is the sum of the products of their deviations from the mean,
  divided by \<open>n - 1\<close>; the sample variance of a series is its sample covariance with
  itself.
\<close>

definition sample_covariance :: "real list \<Rightarrow> real list \<Rightarrow> real" where
  "sample_covariance xs ys =
     (\<Sum>i < length xs. (xs ! i - np_mean xs) * (ys ! i - np_mean ys)) / (real (length xs) - 1)"

definition sample_variance :: "real list \<Rightarrow> real" where
  "sample_variance xs = sample_covariance xs xs"

lemma sum_list_map2_nth:
  "length xs = length ys \<Longrightarrow>
     sum_list (map2 f xs ys) = (\<Sum>i < length xs. f (xs ! i) (ys ! i))"
proof (induction xs ys rule: list_induct2)
  case Nil
  then show ?case by simp
next
  case (Cons x xs y ys)
  have "(\<Sum>i < Suc (length xs). f ((x # xs) ! i) ((y # ys) ! i)) =
      f x y + (\<Sum>i < length xs. f (xs ! i) (ys ! i))"
    by (subst sum.lessThan_Suc_shift) simp
  with Cons.IH show ?case by simp
qed

lemma sum_list_map_nth:
  "sum_list (map f xs) = (\<Sum>i < length xs. f (xs ! i))"
  using sum_list_map2_nth [of xs xs "\<lambda>a b. f a"] by (simp add: zip_same_conv_map comp_def)

lemma foldl_add_sum_list:
  fixes a :: real
  shows "foldl (\<lambda>s v. s + v) a xs = a + sum_list xs"
  by (induction xs arbitrary: a) simp_all

lemma np_add_reduce_exact: "np_add_reduce (\<lambda>x. x) xs = sum_list xs"
  by (simp add: np_add_reduce_def foldl_add_sum_list)

lemma np_cov_sample:
  assumes "length xs = length ys" and "2 \<le> length xs"
  shows "np_cov_0_1 (\<lambda>x. x) xs ys = sample_covariance xs ys"
proof -
  have "sum_list (map2 (*) (map (\<lambda>v. v - np_mean xs) xs) (map (\<lambda>v. v - np_mean ys) ys)) =
      (\<Sum>i < length xs. (xs ! i - np_mean xs) * (ys ! i - np_mean ys))"
    using assms(1) sum_list_map2_nth [of "map (\<lambda>v. v - np_mean xs) xs"
        "map (\<lambda>v. v - np_mean ys) ys" "(*)"]
    by simp
  moreover from assms(2) have "real (length xs - 1) = real (length xs) - 1"
    by (simp add: of_nat_diff)
  ultimately show ?thesis
    by (simp add: np_cov_0_1_def sample_covariance_def Let_def np_add_reduce_exact
        np_mean_def)
qed

lemma np_var_sample:
  assumes "2 \<le> length xs"
  shows "np_var_ddof1 (\<lambda>x. x) xs = sample_variance xs"
proof -
  have "sum_list (map (\<lambda>v. v * v) (map (\<lambda>v. v - np_mean xs) xs)) =
      (\<Sum>i < length xs. (xs ! i - np_mean xs) * (xs ! i - np_mean xs))"
    using sum_list_map_nth [of "\<lambda>v. (v - np_mean xs) * (v - np_mean xs)" xs]
    by (simp add: comp_def)
  moreover from assms have "real (length xs - 1) = real (length xs) - 1"
    by (simp add: of_nat_diff)
  ultimately show ?thesis
    by (simp add: np_var_ddof1_def sample_variance_def sample_covariance_def Let_def
        np_add_reduce_exact np_mean_def)
qed

text \<open>
  In exact arithmetic \<open>calculate_beta\<close> does what its guard is written for: it is \<open>1\<close>
  when the two lists differ in length, when they have fewer than two entries, or when
  the sample variance of the market returns is zero, and the sample covariance divided
  by the sample variance of the market returns in every other case.
\<close>

lemma calculate_beta_exact:
  "calculate_beta (\<lambda>x. x) a m =
     (if length a \<noteq> length m \<or> length a < 2 \<or> sample_variance m = 0 then 1
      else sample_covariance a m / sample_variance m)"
proof (cases "length a \<noteq> length m \<or> length a < 2")
  case True
  then show ?thesis by (auto simp: calculate_beta_def)
next
  case False
  then have len: "length a = length m" "2 \<le> length a" "2 \<le> length m"
    by auto
  from np_cov_sample [OF len(1) len(2)] np_var_sample [OF len(3)] False
  show ?thesis by (simp add: calculate_beta_def Let_def)
qed

lemma calculate_beta_exact_examples:
  "calculate_beta (\<lambda>x. x) [1, 2, 3] [1, 3, 5] = 1 / 2"
  "calculate_beta (\<lambda>x. x) [1, 2] [1] = 1"
  "calculate_beta (\<lambda>x. x) [1, 2] [3, 3] = 1"
proof -
  have v: "sample_variance [1, 3, 5] = 4"
    by (simp add: sample_variance_def sample_covariance_def np_mean_def lessThan_Suc
        numeral_3_eq_3)
  have c: "sample_covariance [1, 2, 3] [1, 3, 5] = 2"
    by (simp add: sample_covariance_def np_mean_def lessThan_Suc numeral_3_eq_3)
  have z: "sample_variance [3, 3] = 0"
    by (simp add: sample_variance_def sample_covariance_def np_mean_def)
  show "calculate_beta (\<lambda>x. x) [1, 2, 3] [1, 3, 5] = 1 / 2"
    using v c by (simp add: calculate_beta_exact)
  show "calculate_beta (\<lambda>x. x) [1, 2] [1] = 1"
    by (simp add: calculate_beta_exact)
  show "calculate_beta (\<lambda>x. x) [1, 2] [3, 3] = 1"
    using z by (simp add: calculate_beta_exact)
qed

subsection \<open>calculate_beta in binary64\<close>

text \<open>
  The closed forms of the variance and the covariance of three entries, and the numbers
  that \<open>binary64\<close> leaves as they are.
\<close>

lemma binary64_dyadic:
  assumes "x = of_int m * 2 powr of_int e" and "2 ^ 52 \<le> \<bar>m\<bar>" and "\<bar>m\<bar> < 2 ^ 53"
  shows "binary64 x = x"
  unfolding assms(1) using assms(2,3) by (rule binary64_representable)

lemma np_var_ddof1_3:
  "np_var_ddof1 rnd [a, b, c] =
     (let m = rnd (rnd (rnd (rnd a + b) + c) / 3)
      in rnd (rnd (rnd (rnd (rnd (rnd (a - m) * rnd (a - m)))
                        + rnd (rnd (b - m) * rnd (b - m)))
                   + rnd (rnd (c - m) * rnd (c - m))) / 2))"
  by (simp add: np_var_ddof1_def np_add_reduce_def Let_def)

lemma np_cov_0_1_3:
  "np_cov_0_1 rnd [a, b, c] [x, y, z] =
     (let avg0 = rnd (rnd (rnd (rnd a + b) + c) / 3);
          avg1 = rnd (rnd (rnd (rnd x + y) + z) / 3)
      in rnd (rnd (rnd (rnd (rnd (rnd (a - avg0) * rnd (x - avg1)))
                        + rnd (rnd (b - avg0) * rnd (y - avg1)))
                   + rnd (rnd (c - avg0) * rnd (z - avg1))) * rnd (1 / 2)))"
  by (simp add: np_cov_0_1_def np_add_reduce_def Let_def)

text \<open>
  C8. The claim is that \<open>calculate_beta\<close> returns \<open>1\<close> whenever the sample variance of
  the market returns is zero. The market returns \<open>[0.1, 0.1, 0.1]\<close> have sample variance
  zero; the float \<open>0.1\<close> is \<open>3602879701896397 / 2\<^sup>5\<^sup>5\<close>. In binary64 their sum rounds
  to \<open>0.30000000000000004\<close> and their mean to \<open>0.10000000000000002\<close>, so every deviation
  is \<open>- 2\<^sup>-\<^sup>5\<^sup>6\<close> and \<open>np.var\<close> gives \<open>3 / 2\<^sup>1\<^sup>1\<^sup>3\<close>, which is not zero: the guard
  \<open>market_variance == 0\<close> does not fire. With the asset returns \<open>[0.25, 0.5, 0.75]\<close> the
  covariance is \<open>0\<close> and \<open>calculate_beta\<close> returns \<open>0\<close>, not \<open>1\<close>.
\<close>

theorem calculate_beta_failing_input:
  "sample_variance [3602879701896397 / 2 ^ 55, 3602879701896397 / 2 ^ 55, 3602879701896397 / 2 ^ 55] = 0 \<and>
   np_var_ddof1 binary64
     [3602879701896397 / 2 ^ 55, 3602879701896397 / 2 ^ 55, 3602879701896397 / 2 ^ 55] = 3 / 2 ^ 113 \<and>
   calculate_beta binary64 [1 / 4, 1 / 2, 3 / 4]
     [3602879701896397 / 2 ^ 55, 3602879701896397 / 2 ^ 55, 3602879701896397 / 2 ^ 55] = 0"
proof -
  define t :: real where "t = 3602879701896397 / 2 ^ 55"
  define u :: real where "u = 7205759403792794 / 2 ^ 55"
  define s :: real where "s = 5404319552844596 / 2 ^ 54"
  define m :: real where "m = 7205759403792795 / 2 ^ 56"
  define d :: real where "d = - 1 / 2 ^ 56"
  define q :: real where "q = 1 / 2 ^ 112"
  define q2 :: real where "q2 = 1 / 2 ^ 111"
  define q3 :: real where "q3 = 3 / 2 ^ 112"
  define v :: real where "v = 3 / 2 ^ 113"
  define a1 :: real where "a1 = 1 / 4"
  define a2 :: real where "a2 = 1 / 2"
  define a3 :: real where "a3 = 3 / 4"
  define b :: real where "b = 3 / 2"
  define e1 :: real where "e1 = 1 / 2 ^ 58"
  note defs = t_def u_def s_def m_def d_def q_def q2_def q3_def v_def a1_def a2_def a3_def
    b_def e1_def
  \<comment> \<open>the representable numbers\<close>
  have fix_t: "binary64 t = t"
    by (rule binary64_dyadic [where m = 7205759403792794 and e = "- 56"])
      (simp_all add: t_def powr_minus_divide)
  have fix_u: "binary64 u = u"
    by (rule binary64_dyadic [where m = 7205759403792794 and e = "- 55"])
      (simp_all add: u_def powr_minus_divide)
  have fix_d: "binary64 d = d"
    by (rule binary64_dyadic [where m = "- 4503599627370496" and e = "- 108"])
      (simp_all add: d_def powr_minus_divide)
  have fix_q: "binary64 q = q"
    by (rule binary64_dyadic [where m = 4503599627370496 and e = "- 164"])
      (simp_all add: q_def powr_minus_divide)
  have fix_q2: "binary64 q2 = q2"
    by (rule binary64_dyadic [where m = 4503599627370496 and e = "- 163"])
      (simp_all add: q2_def powr_minus_divide)
  have fix_q3: "binary64 q3 = q3"
    by (rule binary64_dyadic [where m = 6755399441055744 and e = "- 163"])
      (simp_all add: q3_def powr_minus_divide)
  have fix_v: "binary64 v = v"
    by (rule binary64_dyadic [where m = 6755399441055744 and e = "- 164"])
      (simp_all add: v_def powr_minus_divide)
  have fix_a1: "binary64 a1 = a1"
    by (rule binary64_dyadic [where m = 4503599627370496 and e = "- 54"])
      (simp_all add: a1_def powr_minus_divide)
  have fix_a2: "binary64 a2 = a2"
    by (rule binary64_dyadic [where m = 4503599627370496 and e = "- 53"])
      (simp_all add: a2_def powr_minus_divide)
  have fix_a3: "binary64 a3 = a3"
    by (rule binary64_dyadic [where m = 6755399441055744 and e = "- 53"])
      (simp_all add: a3_def powr_minus_divide)
  have fix_b: "binary64 b = b"
    by (rule binary64_dyadic [where m = 6755399441055744 and e = "- 52"])
      (simp_all add: b_def powr_minus_divide)
  have fix_e1: "binary64 e1 = e1"
    by (rule binary64_dyadic [where m = 4503599627370496 and e = "- 110"])
      (simp_all add: e1_def powr_minus_divide)
  have fix_ma1: "binary64 (- a1) = - a1"
    by (rule binary64_dyadic [where m = "- 4503599627370496" and e = "- 54"])
      (simp_all add: a1_def powr_minus_divide)
  have fix_me1: "binary64 (- e1) = - e1"
    by (rule binary64_dyadic [where m = "- 4503599627370496" and e = "- 110"])
      (simp_all add: e1_def powr_minus_divide)
  \<comment> \<open>the mean of the market returns\<close>
  have r2: "binary64 (t + t) = u"
  proof -
    have "t + t = u" by (simp add: t_def u_def)
    then show ?thesis by (simp only: fix_u)
  qed
  have r3: "binary64 (u + t) = s"
  proof -
    have "binary64 (10808639105689191 / 2 ^ 55) =
        of_int (round_half_even (10808639105689191 / 2 ^ 55 / 2 powr of_int (- 2 - 52)))
          * 2 powr of_int (- 2 - 52)"
      by (rule binary64_binade) (simp_all add: powr_minus_divide)
    also have "2 powr of_int (- 2 - 52) = (1 / 2 ^ 54 :: real)"
      by (simp add: powr_minus_divide)
    also have "round_half_even (10808639105689191 / 2 ^ 55 / (1 / 2 ^ 54)) = 5404319552844596"
      by (simp add: round_half_even_def Let_def)
    finally have rounded: "binary64 (10808639105689191 / 2 ^ 55) = s"
      by (simp add: s_def)
    have sum: "u + t = 10808639105689191 / 2 ^ 55"
      by (simp add: u_def t_def)
    show ?thesis unfolding sum by (rule rounded)
  qed
  have r4: "binary64 (s / 3) = m"
  proof -
    have "binary64 (5404319552844596 / 2 ^ 54 / 3) =
        of_int (round_half_even (5404319552844596 / 2 ^ 54 / 3 / 2 powr of_int (- 4 - 52)))
          * 2 powr of_int (- 4 - 52)"
      by (rule binary64_binade) (simp_all add: powr_minus_divide)
    also have "2 powr of_int (- 4 - 52) = (1 / 2 ^ 56 :: real)"
      by (simp add: powr_minus_divide)
    also have "round_half_even (5404319552844596 / 2 ^ 54 / 3 / (1 / 2 ^ 56)) = 7205759403792795"
      by (simp add: round_half_even_def Let_def)
    finally have "binary64 (5404319552844596 / 2 ^ 54 / 3) = m"
      by (simp add: m_def)
    then show ?thesis by (simp only: s_def)
  qed
  \<comment> \<open>the deviations, their squares and the variance\<close>
  have r5: "binary64 (t - m) = d"
  proof -
    have "t - m = d" by (simp add: t_def m_def d_def)
    then show ?thesis by (simp only: fix_d)
  qed
  have r6: "binary64 (d * d) = q"
  proof -
    have "d * d = q" by (simp add: d_def q_def)
    then show ?thesis by (simp only: fix_q)
  qed
  have r7: "binary64 (q + q) = q2"
  proof -
    have "q + q = q2" by (simp add: q_def q2_def)
    then show ?thesis by (simp only: fix_q2)
  qed
  have r8: "binary64 (q2 + q) = q3"
  proof -
    have "q2 + q = q3" by (simp add: q_def q2_def q3_def)
    then show ?thesis by (simp only: fix_q3)
  qed
  have r9: "binary64 (q3 / 2) = v"
  proof -
    have "q3 / 2 = v" by (simp add: q3_def v_def)
    then show ?thesis by (simp only: fix_v)
  qed
  have var: "np_var_ddof1 binary64 [t, t, t] = v"
    unfolding np_var_ddof1_3 Let_def
    by (simp only: fix_t r2 r3 r4 r5 r6 fix_q r7 r8 r9)
  have v0: "v \<noteq> 0" by (simp add: v_def)
  \<comment> \<open>the covariance\<close>
  have c1: "binary64 (a1 + a2) = a3"
  proof -
    have "a1 + a2 = a3" by (simp add: a1_def a2_def a3_def)
    then show ?thesis by (simp only: fix_a3)
  qed
  have c2: "binary64 (a3 + a3) = b"
  proof -
    have "a3 + a3 = b" by (simp add: a3_def b_def)
    then show ?thesis by (simp only: fix_b)
  qed
  have c3: "binary64 (b / 3) = a2"
  proof -
    have "b / 3 = a2" by (simp add: b_def a2_def)
    then show ?thesis by (simp only: fix_a2)
  qed
  have c4: "binary64 (a1 - a2) = - a1"
  proof -
    have "a1 - a2 = - a1" by (simp add: a1_def a2_def)
    then show ?thesis by (simp only: fix_ma1)
  qed
  have c5: "binary64 (a2 - a2) = 0"
    by (simp add: binary64_zero)
  have c6: "binary64 (a3 - a2) = a1"
  proof -
    have "a3 - a2 = a1" by (simp add: a1_def a2_def a3_def)
    then show ?thesis by (simp only: fix_a1)
  qed
  have c7: "binary64 (- a1 * d) = e1"
  proof -
    have "- a1 * d = e1" by (simp add: a1_def d_def e1_def)
    then show ?thesis by (simp only: fix_e1)
  qed
  have c8: "binary64 (0 * d) = 0"
    by (simp add: binary64_zero)
  have c9: "binary64 (a1 * d) = - e1"
  proof -
    have "a1 * d = - e1" by (simp add: a1_def d_def e1_def)
    then show ?thesis by (simp only: fix_me1)
  qed
  have c10: "binary64 (e1 + 0) = e1"
    by (simp add: fix_e1)
  have c11: "binary64 (e1 + - e1) = 0"
    by (simp add: binary64_zero)
  have c12: "binary64 (1 / 2) = a2"
    using fix_a2 by (simp add: a2_def)
  have c13: "binary64 (0 * a2) = 0"
    by (simp add: binary64_zero)
  have cov: "np_cov_0_1 binary64 [a1, a2, a3] [t, t, t] = 0"
    unfolding np_cov_0_1_3 Let_def
    by (simp only: fix_a1 c1 c2 c3 c4 c5 c6 fix_t r2 r3 r4 r5 c7 c8 c9 fix_e1 c10 c11 c12 c13)
  have beta: "calculate_beta binary64 [a1, a2, a3] [t, t, t] = 0"
    using var cov v0 by (simp add: calculate_beta_def binary64_zero)
  have exact: "sample_variance [t, t, t] = 0"
    by (simp add: sample_variance_def sample_covariance_def np_mean_def)
  from exact var beta show ?thesis
    unfolding defs by simp
qed

text \<open>
  At this input none of the three guards holds: the lists have the same length, which is
  not below two, and the computed variance is not zero; the result differs from \<open>1\<close>.
\<close>

theorem calculate_beta_failing_input_witness:
  "length [1 / 4, 1 / 2, 3 / 4 :: real] =
     length [3602879701896397 / 2 ^ 55, 3602879701896397 / 2 ^ 55, 3602879701896397 / 2 ^ 55 :: real] \<and>
   \<not> length [1 / 4, 1 / 2, 3 / 4 :: real] < 2 \<and>
   np_var_ddof1 binary64
     [3602879701896397 / 2 ^ 55, 3602879701896397 / 2 ^ 55, 3602879701896397 / 2 ^ 55] \<noteq> 0 \<and>
   calculate_beta binary64 [1 / 4, 1 / 2, 3 / 4]
     [3602879701896397 / 2 ^ 55, 3602879701896397 / 2 ^ 55, 3602879701896397 / 2 ^ 55] \<noteq> 1"
proof -
  note ev = calculate_beta_failing_input
  from ev have "np_var_ddof1 binary64
     [3602879701896397 / 2 ^ 55, 3602879701896397 / 2 ^ 55, 3602879701896397 / 2 ^ 55] \<noteq> 0"
    by simp
  moreover from ev have "calculate_beta binary64 [1 / 4, 1 / 2, 3 / 4]
     [3602879701896397 / 2 ^ 55, 3602879701896397 / 2 ^ 55, 3602879701896397 / 2 ^ 55] \<noteq> 1"
    by simp
  ultimately show ?thesis by simp
qed

section \<open>Portfolio rebalancing\<close>


































section \<open>IEEE arithmetic on \<open>fl\<close>\<close>

text \<open>
  pandas and numpy compute on whole series in IEEE arithmetic: no operation raises, a
  division by zero gives an infinity (or NaN for \<open>0 / 0\<close>), NaN spreads through every
  operation and every comparison with NaN is false. On finite values the operations are
  exact, as everywhere in this theory. Zero has no sign here; where the source can meet a
  negative zero, the text says what changes.
\<close>

fun fl_neg :: "fl \<Rightarrow> fl" where
  "fl_neg (Fin a) = Fin (- a)"
| "fl_neg PInf = NInf"
| "fl_neg NInf = PInf"
| "fl_neg NaN = NaN"

fun fl_add :: "fl \<Rightarrow> fl \<Rightarrow> fl" where
  "fl_add (Fin a) (Fin b) = Fin (a + b)"
| "fl_add NaN _ = NaN"
| "fl_add _ NaN = NaN"
| "fl_add PInf NInf = NaN"
| "fl_add NInf PInf = NaN"
| "fl_add PInf _ = PInf"
| "fl_add _ PInf = PInf"
| "fl_add NInf _ = NInf"
| "fl_add _ NInf = NInf"

definition fl_sub :: "fl \<Rightarrow> fl \<Rightarrow> fl" where
  "fl_sub a b = fl_add a (fl_neg b)"

fun fl_div :: "fl \<Rightarrow> fl \<Rightarrow> fl" where
  "fl_div (Fin a) (Fin b) =
     (if b \<noteq> 0 then Fin (a / b)
      else if a > 0 then PInf else if a < 0 then NInf else NaN)"
| "fl_div NaN _ = NaN"
| "fl_div _ NaN = NaN"
| "fl_div (Fin a) PInf = Fin 0"
| "fl_div (Fin a) NInf = Fin 0"
| "fl_div PInf (Fin b) = (if b < 0 then NInf else PInf)"
| "fl_div NInf (Fin b) = (if b < 0 then PInf else NInf)"
| "fl_div _ _ = NaN"

fun fl_less :: "fl \<Rightarrow> fl \<Rightarrow> bool" where
  "fl_less (Fin a) (Fin b) = (a < b)"
| "fl_less NaN _ = False"
| "fl_less _ NaN = False"
| "fl_less NInf NInf = False"
| "fl_less NInf _ = True"
| "fl_less PInf _ = False"
| "fl_less (Fin a) PInf = True"
| "fl_less (Fin a) NInf = False"

section \<open>TechnicalAnalyzer\<close>

subsection \<open>pandas: diff, where, rolling mean\<close>

text \<open>
  \<open>Series.diff()\<close> is NaN at the first position and the difference to the previous
  entry after it. \<open>Series.where(cond, other)\<close> keeps the entries for which the
  condition holds and puts \<open>other\<close> everywhere else. \<open>Series.rolling(window).mean()\<close>
  looks, at each position, at the \<open>window\<close> entries that end there (fewer at the start
  of the series): with fewer than \<open>window\<close> entries that are not NaN among them the
  result is NaN, otherwise it is their mean.
\<close>

definition series_diff :: "real list \<Rightarrow> fl list" where
  "series_diff xs =
     map (\<lambda>i. if i = 0 then NaN else Fin (xs ! i - xs ! (i - 1))) [0 ..< length xs]"

definition series_where :: "(fl \<Rightarrow> bool) \<Rightarrow> fl \<Rightarrow> fl list \<Rightarrow> fl list" where
  "series_where cond other xs = map (\<lambda>x. if cond x then x else other) xs"

definition rolling_mean :: "nat \<Rightarrow> fl list \<Rightarrow> fl list" where
  "rolling_mean window xs =
     map (\<lambda>i. let w = drop (i + 1 - window) (take (i + 1) xs);
                  obs = filter (\<lambda>x. x \<noteq> NaN) w
              in if window = 0 \<or> length obs < window then NaN
                 else fl_div (foldr fl_add obs (Fin 0)) (Fin (real (length obs))))
       [0 ..< length xs]"

subsection \<open>calculate_rsi\<close>

text \<open>
  \<^verbatim>\<open>
  def calculate_rsi(self, period: int = 14):
      delta = self.data['close'].diff()
      gain = delta.where(delta > 0, 0)
      loss = -delta.where(delta < 0, 0)
      avg_gain = gain.rolling(window=period).mean()
      avg_loss = loss.rolling(window=period).mean()
      rs = avg_gain / avg_loss
      rsi = 100 - (100 / (1 + rs))
      current_rsi = rsi.iloc[-1] if not rsi.empty else 50
      if current_rsi > 70:
          signal = "overbought"
      elif current_rsi < 30:
          signal = "oversold"
      else:
          signal = "neutral"
      return {"values": rsi.tolist(), "current_value": current_rsi, "signal": signal,
              "overbought_level": 70, "oversold_level": 30}
  \<close>
  The analyzer holds the OHLCV frame; \<open>calculate_rsi\<close> reads its \<open>close\<close> column only,
  which is the argument \<open>closes\<close> here. There is no guard around the division
  \<open>avg_gain / avg_loss\<close>. (The zeros of \<open>loss\<close> are negative zeros in the source, so a
  zero average loss may carry either sign and \<open>rs\<close> may be either infinity; both give
  \<open>100 / (1 + rs) = 0\<close> and the same RSI.)
\<close>

datatype rsi_signal = Overbought | Oversold | Neutral

record rsi_result =
  rsi_values :: "fl list"
  rsi_current_value :: fl
  rsi_signal :: rsi_signal
  overbought_level :: real
  oversold_level :: real

definition rsi_gain :: "real list \<Rightarrow> fl list" where
  "rsi_gain closes = series_where (\<lambda>d. fl_less (Fin 0) d) (Fin 0) (series_diff closes)"

definition rsi_loss :: "real list \<Rightarrow> fl list" where
  "rsi_loss closes =
     map fl_neg (series_where (\<lambda>d. fl_less d (Fin 0)) (Fin 0) (series_diff closes))"

definition rsi_avg_gain :: "real list \<Rightarrow> nat \<Rightarrow> fl list" where
  "rsi_avg_gain closes period = rolling_mean period (rsi_gain closes)"

definition rsi_avg_loss :: "real list \<Rightarrow> nat \<Rightarrow> fl list" where
  "rsi_avg_loss closes period = rolling_mean period (rsi_loss closes)"

definition calculate_rsi :: "real list \<Rightarrow> nat \<Rightarrow> rsi_result" where
  "calculate_rsi closes period =
     (let avg_gain = rsi_avg_gain closes period;
          avg_loss = rsi_avg_loss closes period;
          rs = map2 fl_div avg_gain avg_loss;
          rsi = map (\<lambda>r. fl_sub (Fin 100) (fl_div (Fin 100) (fl_add (Fin 1) r))) rs;
          current_rsi = (if rsi \<noteq> [] then last rsi else Fin 50);
          signal = (if fl_less (Fin 70) current_rsi then Overbought
                    else if fl_less current_rsi (Fin 30) then Oversold
                    else Neutral)
      in \<lparr>rsi_values = rsi, rsi_current_value = current_rsi, rsi_signal = signal,
          overbought_level = 70, oversold_level = 30\<rparr>)"

lemma length_rsi_avg:
  "length (rsi_avg_gain closes period) = length closes"
  "length (rsi_avg_loss closes period) = length closes"
  by (simp_all add: rsi_avg_gain_def rsi_avg_loss_def rolling_mean_def rsi_gain_def
      rsi_loss_def series_where_def series_diff_def)

lemma last_map2:
  assumes "length xs = length ys" and "xs \<noteq> []"
  shows "last (map2 f xs ys) = f (last xs) (last ys)"
proof -
  from assms have "ys \<noteq> []" by auto
  with assms show ?thesis
    by (simp add: last_conv_nth)
qed

lemma rsi_gain_nonneg:
  "x \<in> set (rsi_gain closes) \<Longrightarrow> \<exists>a. x = Fin a \<and> 0 \<le> a"
  by (auto simp: rsi_gain_def series_where_def series_diff_def)

lemma foldr_fl_add_nonneg:
  "\<forall>x \<in> set xs. \<exists>a. x = Fin a \<and> 0 \<le> a \<Longrightarrow> \<exists>s. foldr fl_add xs (Fin 0) = Fin s \<and> 0 \<le> s"
  by (induction xs) auto

lemma rolling_mean_last:
  assumes "xs \<noteq> []"
  shows "last (rolling_mean window xs) =
     (let w = drop (length xs - window) xs;
          obs = filter (\<lambda>x. x \<noteq> NaN) w
      in if window = 0 \<or> length obs < window then NaN
         else fl_div (foldr fl_add obs (Fin 0)) (Fin (real (length obs))))"
proof -
  from assms have n: "0 < length xs" by simp
  then have "[0 ..< length xs] \<noteq> []" by simp
  then have "last (rolling_mean window xs) =
      (\<lambda>i. let w = drop (i + 1 - window) (take (i + 1) xs);
                  obs = filter (\<lambda>x. x \<noteq> NaN) w
              in if window = 0 \<or> length obs < window then NaN
                 else fl_div (foldr fl_add obs (Fin 0)) (Fin (real (length obs))))
        (last [0 ..< length xs])"
    unfolding rolling_mean_def by (rule last_map)
  moreover from n have "last [0 ..< length xs] = length xs - 1"
    by (simp add: last_upt)
  moreover from n have "length xs - 1 + 1 = length xs" by simp
  ultimately show ?thesis by simp
qed

lemma rsi_avg_gain_defined:
  assumes "closes \<noteq> []" and "last (rsi_avg_loss closes period) \<noteq> NaN"
  shows "\<exists>g. last (rsi_avg_gain closes period) = Fin g \<and> 0 \<le> g"
proof -
  let ?n = "length closes"
  have len: "length (rsi_gain closes) = ?n" "length (rsi_loss closes) = ?n"
    by (simp_all add: rsi_gain_def rsi_loss_def series_where_def series_diff_def)
  with assms(1) have ne: "rsi_gain closes \<noteq> []" "rsi_loss closes \<noteq> []"
    by auto
  let ?wl = "drop (?n - period) (rsi_loss closes)"
  let ?wg = "drop (?n - period) (rsi_gain closes)"
  from assms(2) have "period \<noteq> 0 \<and> \<not> length (filter (\<lambda>x. x \<noteq> NaN) ?wl) < period"
    unfolding rsi_avg_loss_def rolling_mean_last [OF ne(2)] len
    by (auto simp: Let_def split: if_splits)
  then have period: "period \<noteq> 0" and "period \<le> length (filter (\<lambda>x. x \<noteq> NaN) ?wl)"
    by auto
  moreover have "length (filter (\<lambda>x. x \<noteq> NaN) ?wl) \<le> length ?wl"
    by (rule length_filter_le)
  ultimately have "period \<le> length ?wl" by linarith
  then have wg: "period \<le> length ?wg" by (simp add: len)
  have fin: "\<forall>x \<in> set ?wg. \<exists>a. x = Fin a \<and> 0 \<le> a"
    using rsi_gain_nonneg [of _ closes] by (auto dest: in_set_dropD)
  then have obs: "filter (\<lambda>x. x \<noteq> NaN) ?wg = ?wg"
    by (auto simp: filter_id_conv)
  from foldr_fl_add_nonneg [OF fin] obtain s where
    s: "foldr fl_add ?wg (Fin 0) = Fin s" "0 \<le> s" by auto
  from wg period have pos: "0 < length ?wg" by linarith
  have "last (rsi_avg_gain closes period) = Fin (s / real (length ?wg))"
    unfolding rsi_avg_gain_def rolling_mean_last [OF ne(1)] len
    using period wg pos s(1) by (simp add: Let_def obs len)
  moreover from s(2) have "0 \<le> s / real (length ?wg)" by simp
  ultimately show ?thesis by blast
qed

lemma calculate_rsi_current:
  assumes "closes \<noteq> []"
  shows "rsi_current_value (calculate_rsi closes period) =
     fl_sub (Fin 100) (fl_div (Fin 100) (fl_add (Fin 1)
       (fl_div (last (rsi_avg_gain closes period)) (last (rsi_avg_loss closes period)))))"
proof -
  let ?g = "rsi_avg_gain closes period" and ?l = "rsi_avg_loss closes period"
  have len: "length ?g = length ?l" by (simp add: length_rsi_avg)
  from assms have ne: "?g \<noteq> []" using length_rsi_avg(1) [of closes period] by auto
  then have ne2: "map2 fl_div ?g ?l \<noteq> []" using len by (cases ?g; cases ?l) auto
  show ?thesis
    using ne2 last_map2 [OF len ne, of fl_div]
    by (simp add: calculate_rsi_def Let_def last_map)
qed

lemma calculate_rsi_signal:
  "rsi_signal (calculate_rsi closes period) =
     (let c = rsi_current_value (calculate_rsi closes period)
      in if fl_less (Fin 70) c then Overbought
         else if fl_less c (Fin 30) then Oversold else Neutral)"
  by (simp add: calculate_rsi_def Let_def)

text \<open>
  On a flat series the average loss and the average gain are both zero at the end:
  \<open>rs\<close> is \<open>0 / 0\<close>, the current RSI is NaN and the signal is \<open>neutral\<close>.
\<close>

theorem rsi_counterexample:
  "last (rsi_avg_loss (replicate 15 5) 14) = Fin 0 \<and>
   rsi_current_value (calculate_rsi (replicate 15 5) 14) = NaN \<and>
   rsi_signal (calculate_rsi (replicate 15 5) 14) = Neutral"
  by code_simp

text \<open>
  C5 (amended). On a close series whose rolling average loss is \<open>0\<close> at the final
  position, the rolling average gain there is a number \<open>g \<ge> 0\<close>. When \<open>g > 0\<close> the
  current RSI is exactly \<open>100\<close> and the signal is \<open>overbought\<close>. When \<open>g = 0\<close> the
  current RSI is NaN and the signal is \<open>neutral\<close>.
\<close>

theorem rsi_zero_loss:
  assumes "closes \<noteq> []" and "last (rsi_avg_loss closes period) = Fin 0"
  shows "(\<exists>g. last (rsi_avg_gain closes period) = Fin g \<and> 0 \<le> g) \<and>
         (\<forall>g. last (rsi_avg_gain closes period) = Fin g \<and> 0 < g \<longrightarrow>
            rsi_current_value (calculate_rsi closes period) = Fin 100 \<and>
            rsi_signal (calculate_rsi closes period) = Overbought) \<and>
         (last (rsi_avg_gain closes period) = Fin 0 \<longrightarrow>
            rsi_current_value (calculate_rsi closes period) = NaN \<and>
            rsi_signal (calculate_rsi closes period) = Neutral)"
proof (intro conjI allI impI)
  from assms(2) have "last (rsi_avg_loss closes period) \<noteq> NaN" by simp
  from rsi_avg_gain_defined [OF assms(1) this]
  show "\<exists>g. last (rsi_avg_gain closes period) = Fin g \<and> 0 \<le> g" .
next
  fix g assume g: "last (rsi_avg_gain closes period) = Fin g \<and> 0 < g"
  then have cur: "rsi_current_value (calculate_rsi closes period) = Fin 100"
    using assms by (simp add: calculate_rsi_current fl_sub_def)
  then show "rsi_current_value (calculate_rsi closes period) = Fin 100" .
  from cur show "rsi_signal (calculate_rsi closes period) = Overbought"
    by (simp add: calculate_rsi_signal)
next
  assume g: "last (rsi_avg_gain closes period) = Fin 0"
  then have cur: "rsi_current_value (calculate_rsi closes period) = NaN"
    using assms by (simp add: calculate_rsi_current fl_sub_def)
  then show "rsi_current_value (calculate_rsi closes period) = NaN" .
  from cur show "rsi_signal (calculate_rsi closes period) = Neutral"
    by (simp add: calculate_rsi_signal)
qed

theorem rsi_zero_loss_witness:
  "[1, 2, 3 :: real] \<noteq> [] \<and> last (rsi_avg_loss [1, 2, 3] 2) = Fin 0 \<and>
   last (rsi_avg_gain [1, 2, 3] 2) = Fin 1 \<and> (0 :: real) < 1 \<and>
   rsi_current_value (calculate_rsi [1, 2, 3] 2) = Fin 100 \<and>
   rsi_signal (calculate_rsi [1, 2, 3] 2) = Overbought \<and>
   [5, 5, 5 :: real] \<noteq> [] \<and> last (rsi_avg_loss [5, 5, 5] 2) = Fin 0 \<and>
   last (rsi_avg_gain [5, 5, 5] 2) = Fin 0 \<and>
   rsi_current_value (calculate_rsi [5, 5, 5] 2) = NaN \<and>
   rsi_signal (calculate_rsi [5, 5, 5] 2) = Neutral"
proof -
  have l1: "last (rsi_avg_loss [1, 2, 3] 2) = Fin 0" by code_simp
  have g1: "last (rsi_avg_gain [1, 2, 3] 2) = Fin 1" by code_simp
  have l2: "last (rsi_avg_loss [5, 5, 5] 2) = Fin 0" by code_simp
  have g2: "last (rsi_avg_gain [5, 5, 5] 2) = Fin 0" by code_simp
  have ne1: "[1, 2, 3 :: real] \<noteq> []" and ne2: "[5, 5, 5 :: real] \<noteq> []" by simp_all
  from rsi_zero_loss [OF ne1 l1] g1
  have "rsi_current_value (calculate_rsi [1, 2, 3] 2) = Fin 100 \<and>
        rsi_signal (calculate_rsi [1, 2, 3] 2) = Overbought" by simp
  moreover from rsi_zero_loss [OF ne2 l2] g2
  have "rsi_current_value (calculate_rsi [5, 5, 5] 2) = NaN \<and>
        rsi_signal (calculate_rsi [5, 5, 5] 2) = Neutral" by simp
  ultimately show ?thesis using l1 g1 l2 g2 by simp
qed

section \<open>CorrelationAnalyzer\<close>

subsection \<open>pandas: frames, pct_change, dropna\<close>

text \<open>
  A \<open>DataFrame\<close> is a list of named columns of equal length. \<open>pd.DataFrame(d)\<close> on a dict
  of lists raises \<open>ValueError\<close> when the lists differ in length. \<open>pct_change()\<close> divides
  every entry by the one before it in its column and subtracts one; the first row has no
  predecessor and is NaN, and a zero predecessor gives an infinity, or NaN for \<open>0 / 0\<close>.
  \<open>dropna()\<close> drops the rows that hold a NaN in any column (an infinity stays).
  \<open>df.empty\<close> holds when the frame has no column or no row.
\<close>

type_synonym frame = "(string \<times> fl list) list"

definition pd_DataFrame :: "(string \<times> real list) list \<Rightarrow> py_error + frame" where
  "pd_DataFrame d =
     (if \<forall>xs \<in> set (map snd d). \<forall>ys \<in> set (map snd d). length xs = length ys
      then Inr (map (\<lambda>(k, xs). (k, map Fin xs)) d)
      else Inl ValueError)"

definition nrows :: "frame \<Rightarrow> nat" where
  "nrows df = (case df of [] \<Rightarrow> 0 | (k, c) # _ \<Rightarrow> length c)"


definition series_pct_change :: "fl list \<Rightarrow> fl list" where
  "series_pct_change c = map2 (\<lambda>x prev. fl_sub (fl_div x prev) (Fin 1)) c (NaN # butlast c)"

definition pct_change :: "frame \<Rightarrow> frame" where
  "pct_change df = map (\<lambda>(k, c). (k, series_pct_change c)) df"

definition dropna :: "frame \<Rightarrow> frame" where
  "dropna df =
     (let keep = filter (\<lambda>i. list_all (\<lambda>(k, c). c ! i \<noteq> NaN) df) [0 ..< nrows df]
      in map (\<lambda>(k, c). (k, map (\<lambda>i. c ! i) keep)) df)"

definition frame_empty :: "frame \<Rightarrow> bool" where
  "frame_empty df \<longleftrightarrow> df = [] \<or> nrows df = 0"

subsection \<open>pandas: corr\<close>






subsection \<open>calculate_correlation_matrix\<close>







































lemmas frame_eval = pd_DataFrame_def pct_change_def series_pct_change_def dropna_def nrows_def
  frame_empty_def fl_sub_def Let_def upt_rec








lemma ex3_zero_prices:
  "dropna (pct_change [(''A'', [Fin 0, Fin 0, Fin 8, Fin 9]), (''B'', [Fin 1, Fin 4, Fin 0, Fin 8])]) =
     [(''A'', [PInf, Fin (1 / 8)]), (''B'', [Fin (- 1), PInf])]"
  by (simp add: frame_eval)






lemma fl_div_NaN [simp]: "fl_div x NaN = NaN"
  by (cases x) simp_all

lemma fl_add_NaN [simp]: "fl_add x NaN = NaN"
  by (cases x) simp_all




section \<open>PerformanceAnalyzer: value at risk\<close>

subsection \<open>numpy: percentile\<close>

text \<open>
  \<open>np.percentile(a, q)\<close> with the default linear interpolation: \<open>q / 100\<close> has to lie in
  \<open>[0, 1]\<close>, or \<open>ValueError\<close> is raised. The array is sorted; the virtual index is
  \<open>(n - 1) * q / 100\<close>; the result is interpolated between the entries at the floor of
  the virtual index and at the position after it, by the fractional part of the virtual
  index. At the last position the result is the last entry. The interpolation is written
  from the upper entry when the fraction is at least one half. The source calls it on
  arrays of at least two entries; the definition is not meant for an empty array.
\<close>

definition lerp :: "real \<Rightarrow> real \<Rightarrow> real \<Rightarrow> real" where
  "lerp a b t = (if t \<ge> 1 / 2 then b - (b - a) * (1 - t) else a + (b - a) * t)"

definition np_percentile :: "real list \<Rightarrow> real \<Rightarrow> py_error + real" where
  "np_percentile a q =
     (let quantile = q / 100
      in if \<not> (0 \<le> quantile \<and> quantile \<le> 1) then Inl ValueError
         else let arr = sort a;
                  n = length arr;
                  virtual_index = (real n - 1) * quantile;
                  previous_index = nat \<lfloor>virtual_index\<rfloor>
              in if virtual_index \<ge> real n - 1 then Inr (arr ! (n - 1))
                 else Inr (lerp (arr ! previous_index) (arr ! (previous_index + 1))
                             (virtual_index - real previous_index)))"

subsection \<open>calculate_var and calculate_cvar\<close>

text \<open>
  \<^verbatim>\<open>
  def calculate_var(self, returns, confidence_level=0.95):
      if len(returns) < 2:
          return 0.0
      return np.percentile(returns, (1 - confidence_level) * 100) * 100

  def calculate_cvar(self, returns, confidence_level=0.95):
      if len(returns) < 2:
          return 0.0
      var = self.calculate_var(returns, confidence_level) / 100
      tail_returns = [r for r in returns if r <= var]
      if not tail_returns:
          return 0.0
      return np.mean(tail_returns) * 100
  \<close>
  Whether the tail can be empty is decided by the rounding of two float operations: the
  percentile is scaled by \<open>100\<close> in \<open>calculate_var\<close> and scaled back by \<open>/ 100\<close> in
  \<open>calculate_cvar\<close>. The rounding \<open>rnd\<close> of the scalings by \<open>100\<close> is a parameter of the
  two functions; percentile and mean are exact.
\<close>

definition calculate_var :: "(real \<Rightarrow> real) \<Rightarrow> real list \<Rightarrow> real \<Rightarrow> py_error + real" where
  "calculate_var rnd returns confidence_level =
     (if length returns < 2 then Inr 0
      else case np_percentile returns ((1 - confidence_level) * 100) of
             Inl e \<Rightarrow> Inl e
           | Inr p \<Rightarrow> Inr (rnd (p * 100)))"

definition tail_returns_of :: "real \<Rightarrow> real list \<Rightarrow> real list" where
  "tail_returns_of var returns = [r \<leftarrow> returns. r \<le> var]"

definition calculate_cvar :: "(real \<Rightarrow> real) \<Rightarrow> real list \<Rightarrow> real \<Rightarrow> py_error + real" where
  "calculate_cvar rnd returns confidence_level =
     (if length returns < 2 then Inr 0
      else case calculate_var rnd returns confidence_level of
             Inl e \<Rightarrow> Inl e
           | Inr v \<Rightarrow>
               let var = rnd (v / 100);
                   tail_returns = tail_returns_of var returns
               in if tail_returns = [] then Inr 0
                  else Inr (rnd (np_mean tail_returns * 100)))"

lemma lerp_lower:
  assumes "a \<le> b" and "0 \<le> t" and "t \<le> 1"
  shows "a \<le> lerp a b t"
proof (cases "t \<ge> 1 / 2")
  case True
  from assms have "(b - a) * (1 - t) \<le> (b - a) * 1"
    by (intro mult_left_mono) simp_all
  with True show ?thesis by (simp add: lerp_def)
next
  case False
  from assms have "0 \<le> (b - a) * t" by simp
  with False show ?thesis by (simp add: lerp_def)
qed

lemma Min_le_sort_nth:
  assumes "i < length R"
  shows "Min (set R) \<le> sort R ! i"
proof -
  from assms have "sort R ! i \<in> set (sort R)" by (simp del: set_sort)
  then have "sort R ! i \<in> set R" by simp
  then show ?thesis by simp
qed

lemma np_percentile_lower:
  assumes "R \<noteq> []" and "0 \<le> q" and "q \<le> 100"
  shows "\<exists>p. np_percentile R q = Inr p \<and> Min (set R) \<le> p"
proof -
  let ?n = "length R"
  let ?v = "(real ?n - 1) * (q / 100)"
  let ?j = "nat \<lfloor>?v\<rfloor>"
  from assms(1) have n: "1 \<le> ?n" by (cases R) simp_all
  from assms(2,3) have valid: "0 \<le> q / 100 \<and> q / 100 \<le> 1" by simp
  show ?thesis
  proof (cases "?v \<ge> real ?n - 1")
    case True
    then have "np_percentile R q = Inr (sort R ! (?n - 1))"
      using valid by (simp add: np_percentile_def Let_def)
    moreover from n have "Min (set R) \<le> sort R ! (?n - 1)"
      by (intro Min_le_sort_nth) simp
    ultimately show ?thesis by blast
  next
    case False
    then have less: "?v < real ?n - 1" by simp
    from n valid have v0: "0 \<le> ?v" by simp
    then have floor0: "0 \<le> \<lfloor>?v\<rfloor>" by simp
    then have j: "real ?j = of_int \<lfloor>?v\<rfloor>" by simp
    have "of_int \<lfloor>?v\<rfloor> \<le> ?v" by (rule of_int_floor_le)
    with j have g0: "0 \<le> ?v - real ?j" by simp
    have "?v < of_int \<lfloor>?v\<rfloor> + 1" by linarith
    with j have g1: "?v - real ?j \<le> 1" by linarith
    from j less \<open>of_int \<lfloor>?v\<rfloor> \<le> ?v\<close> have "real ?j < real ?n - 1" by linarith
    then have j1: "?j + 1 < ?n" by linarith
    have "sorted (sort R)" by simp
    then have mono: "sort R ! ?j \<le> sort R ! (?j + 1)"
      using j1 by (intro sorted_nth_mono) simp_all
    have val: "np_percentile R q =
        Inr (lerp (sort R ! ?j) (sort R ! (?j + 1)) (?v - real ?j))"
      using valid False by (simp add: np_percentile_def Let_def)
    from j1 have "Min (set R) \<le> sort R ! ?j"
      by (intro Min_le_sort_nth) simp
    also have "\<dots> \<le> lerp (sort R ! ?j) (sort R ! (?j + 1)) (?v - real ?j)"
      using mono g0 g1 by (rule lerp_lower)
    finally show ?thesis using val by blast
  qed
qed

lemma Min_in_tail:
  assumes "R \<noteq> []" and "Min (set R) \<le> var"
  shows "Min (set R) \<in> set (tail_returns_of var R)"
proof -
  from assms(1) have "Min (set R) \<in> set R" by (intro Min_in) simp_all
  with assms(2) show ?thesis by (simp add: tail_returns_of_def)
qed

lemma calculate_cvar_unfold:
  assumes "2 \<le> length R" and "np_percentile R ((1 - c) * 100) = Inr p"
  shows "calculate_cvar r R c =
      (if tail_returns_of (r (r (p * 100) / 100)) R = [] then Inr 0
       else Inr (r (np_mean (tail_returns_of (r (r (p * 100) / 100)) R) * 100)))"
  using assms by (simp add: calculate_cvar_def calculate_var_def Let_def)

lemma scale_up_rounded: "binary64 (6456360425798343 / 2 ^ 63 * 100) = 5044031582654955 / 2 ^ 56"
proof -
  have "binary64 (6456360425798343 / 2 ^ 63 * 100) =
      of_int (round_half_even (6456360425798343 / 2 ^ 63 * 100 / 2 powr of_int (- 4 - 52))) * 2 powr of_int (- 4 - 52)"
    by (rule binary64_binade) (simp_all add: powr_minus_divide)
  also have "2 powr of_int (- 4 - 52) = (1 / 2 ^ 56 :: real)"
    by (simp add: powr_minus_divide)
  also have "round_half_even (6456360425798343 / 2 ^ 63 * 100 / (1 / 2 ^ 56)) = 5044031582654955"
    by (simp add: round_half_even_def Let_def)
  finally show ?thesis by simp
qed


lemma scale_down_rounded: "binary64 (5044031582654955 / 2 ^ 56 / 100) = 6456360425798342 / 2 ^ 63"
proof -
  have "binary64 (5044031582654955 / 2 ^ 56 / 100) =
      of_int (round_half_even (5044031582654955 / 2 ^ 56 / 100 / 2 powr of_int (- 11 - 52))) * 2 powr of_int (- 11 - 52)"
    by (rule binary64_binade) (simp_all add: powr_minus_divide)
  also have "2 powr of_int (- 11 - 52) = (1 / 2 ^ 63 :: real)"
    by (simp add: powr_minus_divide)
  also have "round_half_even (5044031582654955 / 2 ^ 56 / 100 / (1 / 2 ^ 63)) = 6456360425798342"
    by (simp add: round_half_even_def Let_def)
  finally show ?thesis by simp
qed

lemma percentile_pair:
  "np_percentile [x, x] ((1 - 95 / 100) * 100) = Inr x"
  by (simp add: np_percentile_def Let_def lerp_def)

text \<open>
  The float \<open>0.0007\<close> is \<open>6456360425798343 / 2\<^sup>6\<^sup>3\<close>. Times \<open>100\<close> it rounds to
  \<open>0.06999999999999999\<close>, and that divided by \<open>100\<close> rounds to \<open>0.0006999999999999999\<close>,
  one unit in the last place below \<open>0.0007\<close>. For the returns \<open>[0.0007, 0.0007]\<close> the
  percentile is \<open>0.0007\<close> itself (also in floats: the interpolation adds
  \<open>(0.0007 - 0.0007) * t\<close>), so the threshold is below both returns, the tail is empty
  and the fallback returns \<open>0\<close>.
\<close>

theorem cvar_counterexample:
  "np_percentile [6456360425798343 / 2 ^ 63, 6456360425798343 / 2 ^ 63] ((1 - 95 / 100) * 100)
     = Inr (6456360425798343 / 2 ^ 63) \<and>
   binary64 (binary64 (6456360425798343 / 2 ^ 63 * 100) / 100) = 6456360425798342 / 2 ^ 63 \<and>
   tail_returns_of (6456360425798342 / 2 ^ 63)
     [6456360425798343 / 2 ^ 63, 6456360425798343 / 2 ^ 63] = [] \<and>
   calculate_cvar binary64 [6456360425798343 / 2 ^ 63, 6456360425798343 / 2 ^ 63] (95 / 100)
     = Inr 0"
proof -
  have trip: "binary64 (binary64 (6456360425798343 / 2 ^ 63 * 100) / 100) = 6456360425798342 / 2 ^ 63"
    by (simp only: scale_up_rounded scale_down_rounded)
  have tail: "tail_returns_of (6456360425798342 / 2 ^ 63)
     [6456360425798343 / 2 ^ 63, 6456360425798343 / 2 ^ 63] = []"
    by (simp add: tail_returns_of_def)
  have "calculate_cvar binary64 [6456360425798343 / 2 ^ 63, 6456360425798343 / 2 ^ 63] (95 / 100)
     = Inr 0"
    using calculate_cvar_unfold [OF _ percentile_pair, of "6456360425798343 / 2 ^ 63" binary64]
    by (simp only: trip tail if_True) simp
  with percentile_pair trip tail show ?thesis by simp
qed

text \<open>
  C10 (amended). For a return list \<open>R\<close> with at least two entries and a confidence level
  between \<open>0\<close> and \<open>1\<close>, the percentile \<open>p\<close> that \<open>calculate_var\<close> scales exists and is at
  least the minimum of \<open>R\<close>. Whenever the threshold, which is \<open>p\<close> scaled by \<open>100\<close> and
  back with rounding, is not below \<open>p\<close>, the tail contains the minimum of \<open>R\<close> and
  \<open>calculate_cvar\<close> returns the mean of the tail times \<open>100\<close>. In exact arithmetic the
  threshold is \<open>p\<close>, so there the tail always contains the minimum and the fallback is
  never taken.
\<close>

theorem cvar_tail_min:
  assumes "2 \<le> length R" and "0 \<le> c" and "c \<le> 1"
  shows "\<exists>p. np_percentile R ((1 - c) * 100) = Inr p \<and> Min (set R) \<le> p \<and>
           (p \<le> rnd (rnd (p * 100) / 100) \<longrightarrow>
              Min (set R) \<in> set (tail_returns_of (rnd (rnd (p * 100) / 100)) R) \<and>
              calculate_cvar rnd R c =
                Inr (rnd (np_mean (tail_returns_of (rnd (rnd (p * 100) / 100)) R) * 100))) \<and>
           Min (set R) \<in> set (tail_returns_of p R) \<and>
           calculate_cvar (\<lambda>x. x) R c = Inr (np_mean (tail_returns_of p R) * 100)"
proof -
  from assms(1) have ne: "R \<noteq> []" by auto
  from assms(2,3) have q: "0 \<le> (1 - c) * 100" "(1 - c) * 100 \<le> 100" by simp_all
  from np_percentile_lower [OF ne q] obtain p where
    p: "np_percentile R ((1 - c) * 100) = Inr p" and low: "Min (set R) \<le> p"
    by blast
  note cvar = calculate_cvar_unfold [OF assms(1) p]
  have general: "Min (set R) \<in> set (tail_returns_of (rnd (rnd (p * 100) / 100)) R) \<and>
      calculate_cvar rnd R c =
        Inr (rnd (np_mean (tail_returns_of (rnd (rnd (p * 100) / 100)) R) * 100))"
    if trip: "p \<le> rnd (rnd (p * 100) / 100)"
  proof -
    from low trip have "Min (set R) \<le> rnd (rnd (p * 100) / 100)" by simp
    from Min_in_tail [OF ne this] show ?thesis
      by (auto simp: cvar [of rnd])
  qed
  from Min_in_tail [OF ne low] have exact: "Min (set R) \<in> set (tail_returns_of p R) \<and>
      calculate_cvar (\<lambda>x. x) R c = Inr (np_mean (tail_returns_of p R) * 100)"
    by (auto simp: cvar [of "\<lambda>x. x"])
  from p low general exact show ?thesis by blast
qed

theorem cvar_tail_min_witness:
  "2 \<le> length [3 / 100, - 2 / 100, 1 / 100 :: real] \<and> (0 :: real) \<le> 95 / 100 \<and>
   (95 / 100 :: real) \<le> 1 \<and>
   np_percentile [3 / 100, - 2 / 100, 1 / 100] ((1 - 95 / 100) * 100) = Inr (- 17 / 1000) \<and>
   Min (set [3 / 100, - 2 / 100, 1 / 100 :: real]) = - 2 / 100 \<and>
   tail_returns_of (- 17 / 1000) [3 / 100, - 2 / 100, 1 / 100] = [- 2 / 100] \<and>
   calculate_cvar (\<lambda>x. x) [3 / 100, - 2 / 100, 1 / 100] (95 / 100) = Inr (- 2)"
proof -
  let ?R = "[3 / 100, - 2 / 100, 1 / 100 :: real]"
  have len: "2 \<le> length ?R" by simp
  have c: "(0 :: real) \<le> 95 / 100" "(95 / 100 :: real) \<le> 1" by simp_all
  have p: "np_percentile ?R ((1 - 95 / 100) * 100) = Inr (- 17 / 1000)"
    by (simp add: np_percentile_def Let_def lerp_def)
  have tail: "tail_returns_of (- 17 / 1000) ?R = [- 2 / 100]"
    by (simp add: tail_returns_of_def)
  have m: "Min (set ?R) = - 2 / 100" by simp
  from cvar_tail_min [OF len c, of "\<lambda>x. x"] p
  have "calculate_cvar (\<lambda>x. x) ?R (95 / 100) = Inr (np_mean (tail_returns_of (- 17 / 1000) ?R) * 100)"
    by auto
  then have "calculate_cvar (\<lambda>x. x) ?R (95 / 100) = Inr (- 2)"
    by (simp only: tail) (simp add: np_mean_def)
  with len c p tail m show ?thesis by simp
qed

end
